theory Spec2Isabelle
  imports Complex_Main "HOL-Library.Word"
begin

unbundle bit_operations_syntax

section \<open>Data model\<close>

text \<open>
  A Node \<open>Buffer\<close> is a sequence of bytes; indexing it yields an integer in 0..255.
  JavaScript numbers are IEEE doubles. The byte counts, indices and squared-sample sums
  of this program stay far below \<open>2^53\<close>, where doubles are exact integers, so they are
  \<open>nat\<close> and \<open>int\<close> here. An amplitude is a \<open>js_number\<close>: a real number, or one of
  the three values a double has beside the numbers (rounding of the square root and of
  the divisions is not modelled).
\<close>

type_synonym buffer = "8 word list"

datatype js_number = Num real | PosInf | NegInf | NaN

text \<open>
  The arithmetic the sampler does on amplitudes. \<open>js_div_count x n\<close> is \<open>x / n\<close> for a
  count \<open>n\<close>, a non-negative integer: dividing by the count 0 gives \<open>NaN\<close> for 0 and an
  infinity of the sign of \<open>x\<close> otherwise. \<open>js_add\<close> is \<open>+\<close>, \<open>js_sqrt\<close> is \<open>Math.sqrt\<close> and
  \<open>js_min_one\<close> is \<open>Math.min(1.0, x)\<close>.
\<close>

definition js_div_count :: "js_number \<Rightarrow> nat \<Rightarrow> js_number" where
  "js_div_count x n =
     (case x of
        Num a \<Rightarrow>
          if n = 0 then (if a = 0 then NaN else if 0 < a then PosInf else NegInf)
          else Num (a / real n)
      | PosInf \<Rightarrow> PosInf
      | NegInf \<Rightarrow> NegInf
      | NaN \<Rightarrow> NaN)"

fun js_add :: "js_number \<Rightarrow> js_number \<Rightarrow> js_number" where
  "js_add (Num a) (Num b) = Num (a + b)"
| "js_add NaN y = NaN"
| "js_add x NaN = NaN"
| "js_add PosInf NegInf = NaN"
| "js_add NegInf PosInf = NaN"
| "js_add PosInf y = PosInf"
| "js_add x PosInf = PosInf"
| "js_add NegInf y = NegInf"
| "js_add x NegInf = NegInf"

definition js_sqrt :: "js_number \<Rightarrow> js_number" where
  "js_sqrt x =
     (case x of
        Num a \<Rightarrow> if a < 0 then NaN else Num (sqrt a)
      | PosInf \<Rightarrow> PosInf
      | NegInf \<Rightarrow> NaN
      | NaN \<Rightarrow> NaN)"

definition js_min_one :: "js_number \<Rightarrow> js_number" where
  "js_min_one x =
     (case x of
        Num a \<Rightarrow> Num (min 1 a)
      | PosInf \<Rightarrow> Num 1
      | NegInf \<Rightarrow> NegInf
      | NaN \<Rightarrow> NaN)"

text \<open>A value between 0 and 1: a number, and in that range.\<close>

definition in_unit_interval :: "js_number \<Rightarrow> bool" where
  "in_unit_interval x = (case x of Num a \<Rightarrow> 0 \<le> a \<and> a \<le> 1 | _ \<Rightarrow> False)"

text \<open>The object returned by \<open>simulatePeaksExtraction\<close> and \<open>generateFallbackPeaks\<close>.\<close>

record peaks_data =
  peaks :: "js_number list"
  duration :: real
  sampleRate :: nat
  channels :: nat
  length_field :: nat
  bits :: nat

section \<open>The byte sampler: \<open>extractRealAmplitudes\<close> and \<open>smoothPeaks\<close>\<close>

text \<open>
  The inner loop of \<open>extractRealAmplitudes\<close>:
  \<^verbatim>\<open>for (let j = startByte; j < endByte; j += 20) {
    if (j < audioBuffer.length - 1) {
      const sample = audioBuffer[j] - 128;
      sum += sample * sample;
      count++;
    }
  }\<close>
  The guard \<open>j < audioBuffer.length - 1\<close> is written \<open>j + 1 < length buf\<close>, which is the
  same comparison without the truncating subtraction of \<open>nat\<close>.
\<close>

text \<open>The accumulator \<open>sum\<close> of the source is called \<open>tot\<close> (\<open>sum\<close> is a HOL constant).\<close>

function sample_loop :: "buffer \<Rightarrow> nat \<Rightarrow> nat \<Rightarrow> int \<Rightarrow> nat \<Rightarrow> int \<times> nat" where
  "sample_loop audioBuffer endByte j tot count =
     (if j < endByte then
        (if j + 1 < length audioBuffer then
           (let sample = uint (audioBuffer ! j) - 128
            in sample_loop audioBuffer endByte (j + 20) (tot + sample * sample) (count + 1))
         else sample_loop audioBuffer endByte (j + 20) tot count)
      else (tot, count))"
  by pat_completeness auto
termination
  by (relation "measure (\<lambda>(audioBuffer, endByte, j, tot, count). endByte - j)") auto

text \<open>
  One iteration of the outer loop: the normalised RMS of chunk \<open>i\<close>.
  \<^verbatim>\<open>const rms = count > 0 ? Math.sqrt(sum / count) : 0;
  const normalized = Math.min(1.0, rms / 128);\<close>
\<close>

definition chunk_rms :: "int \<Rightarrow> nat \<Rightarrow> js_number" where
  "chunk_rms tot count =
     (if count > 0 then js_sqrt (js_div_count (Num (real_of_int tot)) count) else Num 0)"

definition chunk_peak :: "buffer \<Rightarrow> nat \<Rightarrow> nat \<Rightarrow> js_number" where
  "chunk_peak audioBuffer chunkSize i =
     (let startByte = i * chunkSize;
          endByte = min (startByte + chunkSize) (length audioBuffer);
          (tot, count) = sample_loop audioBuffer endByte startByte 0 0;
          rms = chunk_rms tot count
      in js_min_one (js_div_count rms 128))"

text \<open>
  \<open>smoothPeaks\<close>: a moving average with \<open>windowSize = 1\<close>; the window of index \<open>i\<close> runs
  from \<open>Math.max(0, i - windowSize)\<close> to \<open>Math.min(peaks.length - 1, i + windowSize)\<close>
  inclusive, and the loop accumulates \<open>sum\<close> and \<open>count\<close> from left to right.
\<close>

definition windowSize :: nat where
  "windowSize = 1"

definition window_bounds :: "nat \<Rightarrow> nat \<Rightarrow> nat \<times> nat" where
  "window_bounds n i =
     (nat (max 0 (int i - int windowSize)), nat (min (int n - 1) (int i + int windowSize)))"

definition window_acc :: "js_number list \<Rightarrow> nat \<Rightarrow> nat \<Rightarrow> js_number \<times> nat" where
  "window_acc ps lo hi =
     foldl (\<lambda>(tot, count) j. (js_add tot (ps ! j), count + 1)) (Num 0, 0) [lo..<Suc hi]"

definition smooth_at :: "js_number list \<Rightarrow> nat \<Rightarrow> js_number" where
  "smooth_at ps i =
     (let (lo, hi) = window_bounds (length ps) i;
          (tot, count) = window_acc ps lo hi
      in js_div_count tot count)"

definition smoothPeaks :: "js_number list \<Rightarrow> js_number list" where
  "smoothPeaks ps = map (smooth_at ps) [0..<length ps]"

text \<open>
  \<open>extractRealAmplitudes\<close>: \<open>chunkSize = Math.floor(audioBuffer.length / targetPeaks)\<close>,
  one raw peak per \<open>i < targetPeaks\<close>, then the smoothing pass. For \<open>targetPeaks = 0\<close>
  JavaScript's quotient is \<open>Infinity\<close> or \<open>NaN\<close>, but the loop body never runs and the
  chunk size is never read; HOL's \<open>div\<close> gives 0 there, equally unread.
\<close>

definition raw_peaks :: "buffer \<Rightarrow> nat \<Rightarrow> js_number list" where
  "raw_peaks audioBuffer targetPeaks =
     (let chunkSize = length audioBuffer div targetPeaks
      in map (chunk_peak audioBuffer chunkSize) [0..<targetPeaks])"

definition extractRealAmplitudes :: "buffer \<Rightarrow> nat \<Rightarrow> js_number list" where
  "extractRealAmplitudes audioBuffer targetPeaks = smoothPeaks (raw_peaks audioBuffer targetPeaks)"

section \<open>Duration estimate and peak count: \<open>simulatePeaksExtraction\<close>\<close>

text \<open>
  \<^verbatim>\<open>const estimatedDuration = Math.max(30, Math.min(600, fileSize / 20000));
  const targetPeaks = Math.min(200, Math.max(100, Math.floor(estimatedDuration * 1)));\<close>
\<close>

definition estimatedDuration :: "nat \<Rightarrow> real" where
  "estimatedDuration fileSize = max 30 (min 600 (real fileSize / 20000))"

definition targetPeaks_of :: "nat \<Rightarrow> nat" where
  "targetPeaks_of fileSize = nat (min 200 (max 100 \<lfloor>estimatedDuration fileSize * 1\<rfloor>))"

text \<open>The clamp of the specification, \<open>clamp(x, lo, hi)\<close>, written from its words.\<close>

definition spec_clamp :: "'a::linorder \<Rightarrow> 'a \<Rightarrow> 'a \<Rightarrow> 'a" where
  "spec_clamp x lo hi = (if x < lo then lo else if hi < x then hi else x)"

section \<open>Strings, errors and the processor object\<close>

text \<open>
  A JavaScript string is a sequence of UTF-16 code units; \<open>charCodeAt\<close> reads one, and a
  regular expression without the \<open>u\<close> flag matches code unit by code unit. \<open>js\<close> turns a
  HOL literal into such a string.
\<close>

type_synonym js_string = "nat list"

definition js :: "string \<Rightarrow> js_string" where
  "js s = map of_char s"

text \<open>The truthiness test that \<open>||\<close> and \<open>&&\<close> apply to an optional string field.\<close>

definition truthy :: "js_string option \<Rightarrow> bool" where
  "truthy v = (case v of None \<Rightarrow> False | Some s \<Rightarrow> s \<noteq> [])"

datatype js_error =
    AxiosError
  | NoAudioData
  | FsWriteError
  | FsReadError
  | TypeError
  | ReferenceError

text \<open>
  The fields of the \<open>AudioProcessor\<close> singleton that \<open>extractPeaksFromFile\<close> and
  \<open>simulatePeaksExtraction\<close> assign and \<open>generateRealisticPeaks\<close> reads.
\<close>

record audio_processor =
  currentVideoId :: "js_string option"
  currentAudioSize :: "nat option"

section \<open>The procedural generator: \<open>generateRealisticPeaks\<close>\<close>

text \<open>
  \<^verbatim>\<open>videoIdHash = ((videoIdHash << 5) - videoIdHash + videoId.charCodeAt(i)) & 0xffffffff;\<close>
  Both \<open><<\<close> and \<open>&\<close> convert to a signed 32-bit integer, and the subtraction and
  addition between them are exact, so the step is 32-bit word arithmetic whose result is
  read as two's complement.
\<close>

definition hash_step :: "32 word \<Rightarrow> nat \<Rightarrow> 32 word" where
  "hash_step h c = (push_bit 5 h - h + of_nat c) AND 0xffffffff"

definition videoIdHash :: "js_string \<Rightarrow> int" where
  "videoIdHash videoId = sint (foldl hash_step 0 videoId)"

text \<open>
  \<^verbatim>\<open>const audioSize = this.currentAudioSize || 1000000;
  const videoId = this.currentVideoId || 'default';
  const seed = Math.abs(videoIdHash + audioSize) % 10000;\<close>
\<close>

definition audioSize_of :: "audio_processor \<Rightarrow> nat" where
  "audioSize_of this =
     (case currentAudioSize this of None \<Rightarrow> 1000000 | Some n \<Rightarrow> if n = 0 then 1000000 else n)"

definition videoId_of :: "audio_processor \<Rightarrow> js_string" where
  "videoId_of this =
     (case currentVideoId this of
        None \<Rightarrow> js ''default''
      | Some v \<Rightarrow> if v = [] then js ''default'' else v)"

definition seed_of :: "audio_processor \<Rightarrow> nat" where
  "seed_of this = nat \<bar>videoIdHash (videoId_of this) + int (audioSize_of this)\<bar> mod 10000"

text \<open>
  \<open>Math.random()\<close> is the one input of the generator that is not an argument or a field.
  It is modelled as the sequence \<open>rnd\<close> of the values it returns, in call order, and a
  counter \<open>k\<close> of the calls made so far.

  The \<open>switch (patternType)\<close>, cases 0 to 3 and \<open>default\<close>.
\<close>

definition pattern_amplitude ::
  "nat \<Rightarrow> nat \<Rightarrow> real \<Rightarrow> nat \<Rightarrow> (nat \<Rightarrow> real) \<Rightarrow> nat \<Rightarrow> real \<times> nat" where
  "pattern_amplitude patternType seed progress i rnd k =
     (if patternType = 0 then
        (0.3 + 0.5 * sin (progress * pi * 6 + real seed * 0.001)
           + 0.2 * sin (progress * pi * 20 + real seed * 0.002), k)
      else if patternType = 1 then
        ((0.2 + 0.6 * \<bar>sin (progress * pi * 12 + real seed * 0.001)\<bar>)
           * (1 + 0.3 * sin (progress * pi * 40 + real seed * 0.003)), k)
      else if patternType = 2 then
        (0.1 + 0.7 * progress * sin (progress * pi * 8 + real seed * 0.001)
           + 0.3 * rnd k * real (seed mod 100) / 100, k + 1)
      else if patternType = 3 then
        (let amplitude = 0.2 + 0.5 * sin (progress * pi * 3 + real seed * 0.001)
         in (if (i + seed) mod 20 < 3 then amplitude * 1.8 else amplitude, k))
      else (0.3 + 0.4 * sin (progress * pi * 4), k))"

text \<open>One iteration of the generator's loop: the peak at index \<open>i\<close> and the new call count.\<close>

definition realistic_peak :: "nat \<Rightarrow> nat \<Rightarrow> (nat \<Rightarrow> real) \<Rightarrow> nat \<Rightarrow> nat \<Rightarrow> real \<times> nat" where
  "realistic_peak seed numPeaks rnd i k =
     (let progress = real i / real numPeaks;
          (a0, k1) = pattern_amplitude (seed mod 4) seed progress i rnd k;
          randomFactor = real ((seed + i) mod 1000) / 1000;
          a1 = a0 + (randomFactor - 0.5) * 0.3;
          (a2, k2) = (if rnd k1 < 0.05 then (a1 + rnd (k1 + 1) * 0.4, k1 + 2) else (a1, k1 + 1));
          a3 = (if progress < 0.05 then a2 * (progress / 0.05)
                else if progress > 0.95 then a2 * ((1 - progress) / 0.05)
                else a2)
      in (max (- 1) (min 1 a3), k2))"

function realistic_loop ::
  "nat \<Rightarrow> nat \<Rightarrow> (nat \<Rightarrow> real) \<Rightarrow> nat \<Rightarrow> nat \<Rightarrow> real list \<Rightarrow> real list \<times> nat" where
  "realistic_loop seed numPeaks rnd i k ps =
     (if i < numPeaks then
        (let (amplitude, k') = realistic_peak seed numPeaks rnd i k
         in realistic_loop seed numPeaks rnd (i + 1) k' (ps @ [amplitude]))
      else (ps, k))"
  by pat_completeness auto
termination
  by (relation "measure (\<lambda>(seed, numPeaks, rnd, i, k, ps). numPeaks - i)") auto

text \<open>
  \<open>generateRealisticPeaks(numPeaks, duration)\<close>; \<open>duration\<close> is not read. The result is
  the peak array together with the number of \<open>Math.random()\<close> calls made.
\<close>

definition generateRealisticPeaks ::
  "audio_processor \<Rightarrow> (nat \<Rightarrow> real) \<Rightarrow> nat \<Rightarrow> real \<Rightarrow> real list \<times> nat" where
  "generateRealisticPeaks this rnd numPeaks dur = realistic_loop (seed_of this) numPeaks rnd 0 0 []"

definition generateFallbackPeaks ::
  "audio_processor \<Rightarrow> (nat \<Rightarrow> real) \<Rightarrow> nat \<Rightarrow> real \<Rightarrow> peaks_data" where
  "generateFallbackPeaks this rnd targetPeaks dur =
     (let ps = fst (generateRealisticPeaks this rnd targetPeaks dur)
      in \<lparr>peaks = map Num ps, duration = dur, sampleRate = 44100, channels = 2,
          length_field = length ps, bits = 16\<rparr>)"

text \<open>Two sources of random numbers and a processor state, used to run the generator.\<close>

definition rnd_zero :: "nat \<Rightarrow> real" where
  "rnd_zero k = 0"

definition rnd_half :: "nat \<Rightarrow> real" where
  "rnd_half k = 1 / 2"

definition processor_a5 :: audio_processor where
  "processor_a5 = \<lparr>currentVideoId = Some (js ''a''), currentAudioSize = Some 5\<rparr>"

section \<open>The extraction entry point: \<open>generatePeaks\<close>\<close>

text \<open>
  \<open>simulatePeaksExtraction(audioBuffer)\<close>. On a \<open>Buffer\<close> nothing in the \<open>try\<close> block
  raises. On \<open>null\<close> or \<open>undefined\<close> (\<open>None\<close> here) \<open>audioBuffer.length\<close> raises a
  TypeError; the \<open>catch\<close> block then evaluates
  \<open>this.generateFallbackPeaks(targetPeaks, estimatedDuration)\<close>, whose two arguments are
  \<open>const\<close> bindings of the \<open>try\<close> block and out of scope there: a ReferenceError, which
  rejects the promise. The assignment \<open>this.currentAudioSize = fileSize\<close> is the state
  change.
\<close>

definition simulatePeaksExtraction ::
  "audio_processor \<Rightarrow> buffer option \<Rightarrow> (js_error + peaks_data) \<times> audio_processor" where
  "simulatePeaksExtraction this audioBuffer =
     (case audioBuffer of
        None \<Rightarrow> (Inl ReferenceError, this)
      | Some buf \<Rightarrow>
          (let fileSize = length buf;
               this' = this\<lparr>currentAudioSize := Some fileSize\<rparr>;
               targetPeaks = targetPeaks_of fileSize;
               ps = extractRealAmplitudes buf targetPeaks
           in (Inr \<lparr>peaks = ps, duration = estimatedDuration fileSize, sampleRate = 44100,
                     channels = 2, length_field = length ps, bits = 16\<rparr>, this')))"

text \<open>
  The outside world of \<open>generatePeaks\<close>: what the HTTP GET of a location gives (an error,
  or a response whose \<open>data\<close> may be missing), and whether writing and reading the
  temporary file fail. The file read back is the data written.
\<close>

record io_env =
  fetch :: "js_string \<Rightarrow> js_error + buffer option"
  writeFile_fails :: bool
  readFile_fails :: bool

text \<open>
  \<open>extractPeaksFromFile(filePath, videoId)\<close>: reads the file, stores the video id, runs
  the extraction; its \<open>catch\<close> logs and rethrows.
\<close>

definition extractPeaksFromFile ::
  "io_env \<Rightarrow> audio_processor \<Rightarrow> buffer \<Rightarrow> js_string option \<Rightarrow>
   (js_error + peaks_data) \<times> audio_processor" where
  "extractPeaksFromFile env this fileData videoId =
     (if readFile_fails env then (Inl FsReadError, this)
      else simulatePeaksExtraction (this\<lparr>currentVideoId := videoId\<rparr>) (Some fileData))"

text \<open>
  \<open>generatePeaks(audioUrl, videoId)\<close>: every error of the \<open>try\<close> block reaches
  \<open>catch (error) { ...; throw error; }\<close> and is rethrown; the \<open>finally\<close> block unlinks the
  temporary file and swallows a failure of the unlink, so it does not change the result.
\<close>

definition generatePeaks ::
  "io_env \<Rightarrow> audio_processor \<Rightarrow> js_string \<Rightarrow> js_string option \<Rightarrow>
   (js_error + peaks_data) \<times> audio_processor" where
  "generatePeaks env this audioUrl videoId =
     (case fetch env audioUrl of
        Inl e \<Rightarrow> (Inl e, this)
      | Inr None \<Rightarrow> (Inl NoAudioData, this)
      | Inr (Some responseData) \<Rightarrow>
          if writeFile_fails env then (Inl FsWriteError, this)
          else extractPeaksFromFile env this responseData videoId)"

text \<open>
  An environment in which no location can be fetched, one in which every location
  serves the same bytes and the file system works, and a fresh processor.
\<close>

definition unreachable_env :: io_env where
  "unreachable_env = \<lparr>fetch = (\<lambda>u. Inl AxiosError), writeFile_fails = False, readFile_fails = False\<rparr>"

definition serving_env :: "buffer \<Rightarrow> io_env" where
  "serving_env buf =
     \<lparr>fetch = (\<lambda>u. Inr (Some buf)), writeFile_fails = False, readFile_fails = False\<rparr>"

definition fresh_processor :: audio_processor where
  "fresh_processor = \<lparr>currentVideoId = None, currentAudioSize = None\<rparr>"

section \<open>Peak-array utilities: \<open>resamplePeaks\<close>\<close>

text \<open>
  An array read \<open>peaks[index]\<close> is \<open>undefined\<close> out of range, and \<open>v || 0\<close> replaces
  \<open>undefined\<close> and the falsy number 0 by 0. (\<open>NaN\<close>, the other falsy number, is not a
  value of \<open>real\<close>.)
\<close>

definition js_index :: "'a list \<Rightarrow> int \<Rightarrow> 'a option" where
  "js_index xs i = (if 0 \<le> i \<and> i < int (length xs) then Some (xs ! nat i) else None)"

definition or_zero :: "real option \<Rightarrow> real" where
  "or_zero v = (case v of None \<Rightarrow> 0 | Some x \<Rightarrow> if x = 0 then 0 else x)"

text \<open>
  \<open>resamplePeaks(peaks, targetLength)\<close>; a \<open>null\<close> or \<open>undefined\<close> array is answered
  like the empty one. For \<open>targetLength = 0\<close> the loop does not run.
\<close>

definition resamplePeaks :: "real list \<Rightarrow> nat \<Rightarrow> real list" where
  "resamplePeaks ps targetLength =
     (if ps = [] then []
      else if length ps = targetLength then ps
      else (let ratio = real (length ps) / real targetLength
            in map (\<lambda>i. or_zero (js_index ps \<lfloor>real i * ratio\<rfloor>)) [0..<targetLength]))"

section \<open>The URL pattern of \<open>extractVideoId\<close>\<close>

text \<open>
  The regular expressions this pattern needs: literals, character classes, sequence,
  ordered alternative, greedy \<open>?\<close>, greedy \<open>*\<close> and \<open>+\<close> on a character class, \<open>{n}\<close> on
  a character class, and one capturing group.
\<close>

datatype rx =
    Lit js_string
  | Cls "nat \<Rightarrow> bool"
  | Seq rx rx
  | Alt rx rx
  | Opt rx
  | StarC "nat \<Rightarrow> bool"
  | PlusC "nat \<Rightarrow> bool"
  | RepC nat "nat \<Rightarrow> bool"
  | Grp rx

text \<open>
  A backtracking matcher as a list of successes: from a state (the rest of the input and
  the capture so far) it returns every state the expression can end in, in the order in
  which a backtracking engine tries them (first alternative first, longest repetition
  first). The engine's result is the head of that list.
\<close>

type_synonym rx_state = "js_string \<times> js_string option"

fun rx_match :: "rx \<Rightarrow> rx_state \<Rightarrow> rx_state list" where
  "rx_match (Lit s) (rest, cap) =
     (if take (length s) rest = s then [(drop (length s) rest, cap)] else [])"
| "rx_match (Cls p) (rest, cap) =
     (case rest of [] \<Rightarrow> [] | c # r \<Rightarrow> if p c then [(r, cap)] else [])"
| "rx_match (Seq a b) st = concat (map (rx_match b) (rx_match a st))"
| "rx_match (Alt a b) st = rx_match a st @ rx_match b st"
| "rx_match (Opt a) st = rx_match a st @ [st]"
| "rx_match (StarC p) (rest, cap) =
     map (\<lambda>n. (drop n rest, cap)) (rev [0..<Suc (length (takeWhile p rest))])"
| "rx_match (PlusC p) (rest, cap) =
     map (\<lambda>n. (drop n rest, cap)) (rev [1..<Suc (length (takeWhile p rest))])"
| "rx_match (RepC n p) (rest, cap) =
     (if n \<le> length rest \<and> list_all p (take n rest) then [(drop n rest, cap)] else [])"
| "rx_match (Grp a) (rest, cap) =
     map (\<lambda>(r, c). (r, Some (take (length rest - length r) rest))) (rx_match a (rest, cap))"

text \<open>
  \<open>String.prototype.match\<close> with a pattern that has no \<open>g\<close> flag: the leftmost start
  position at which the pattern matches; \<open>None\<close> is the \<open>null\<close> result, \<open>Some cap\<close> the
  match array, of which only element 1 (the group) is kept.
\<close>

fun rx_exec :: "rx \<Rightarrow> js_string \<Rightarrow> js_string option option" where
  "rx_exec r [] = (case rx_match r ([], None) of [] \<Rightarrow> None | (rest, cap) # _ \<Rightarrow> Some cap)"
| "rx_exec r (c # s) =
     (case rx_match r (c # s, None) of [] \<Rightarrow> rx_exec r s | (rest, cap) # _ \<Rightarrow> Some cap)"

text \<open>
  The character classes: \<open>\s\<close> (white space and line terminators), \<open>.\<close> (anything but a
  line terminator), \<open>[^\/]\<close>, \<open>[?&]\<close> and \<open>[^"&?\/\s]\<close>.
\<close>

definition cls_space :: "nat \<Rightarrow> bool" where
  "cls_space c =
     (c \<in> {9, 10, 11, 12, 13, 32, 160, 5760, 8232, 8233, 8239, 8287, 12288, 65279}
      \<or> (8192 \<le> c \<and> c \<le> 8202))"

definition cls_dot :: "nat \<Rightarrow> bool" where
  "cls_dot c = (c \<notin> {10, 13, 8232, 8233})"

definition cls_not_slash :: "nat \<Rightarrow> bool" where
  "cls_not_slash c = (c \<noteq> 47)"

definition cls_query_amp :: "nat \<Rightarrow> bool" where
  "cls_query_amp c = (c = 63 \<or> c = 38)"

definition cls_id :: "nat \<Rightarrow> bool" where
  "cls_id c = (c \<notin> {34, 38, 63, 47} \<and> \<not> cls_space c)"

text \<open>
  \<^verbatim>\<open>/(?:youtube\.com\/(?:[^\/]+\/.+\/|(?:v|e(?:mbed)?)\/|.*[?&]v=)|youtu\.be\/)([^"&?\/\s]{11})/\<close>
\<close>

definition videoId_regex :: rx where
  "videoId_regex =
     Seq (Alt (Seq (Lit (js ''youtube.com/''))
                   (Alt (Seq (PlusC cls_not_slash)
                             (Seq (Lit (js ''/'')) (Seq (PlusC cls_dot) (Lit (js ''/'')))))
                        (Alt (Seq (Alt (Lit (js ''v'')) (Seq (Lit (js ''e'')) (Opt (Lit (js ''mbed'')))))
                                  (Lit (js ''/'')))
                             (Seq (StarC cls_dot) (Seq (Cls cls_query_amp) (Lit (js ''v='')))))))
              (Lit (js ''youtu.be/'')))
         (Grp (RepC 11 cls_id))"

text \<open>
  \<open>extractVideoId(url)\<close> on a string: \<open>match ? match[1] : null\<close>. Element 1 of a match
  array is \<open>undefined\<close> when the group took no part in the match.
\<close>

datatype js_result = Null | Undefined | Str js_string

definition extractVideoId :: "js_string \<Rightarrow> js_result" where
  "extractVideoId url =
     (case rx_exec videoId_regex url of
        None \<Rightarrow> Null
      | Some None \<Rightarrow> Undefined
      | Some (Some v) \<Rightarrow> Str v)"

section \<open>The event-stream monitor: \<open>monitorConversionProgress\<close>\<close>

text \<open>
  What \<open>JSON.parse(event.data)\<close> gives: it raises (\<open>Unparseable\<close>), it returns \<open>null\<close>, or
  it returns a value whose \<open>status\<close>, \<open>downloadUrl\<close> and \<open>message\<close> can be read. A field
  is \<open>None\<close> when it is missing; a parsed number, string, boolean or array has none of
  the three.
\<close>

datatype sse_data =
    Unparseable
  | JsonNull
  | Json (data_status: "js_string option") (data_downloadUrl: "js_string option")
         (data_message: "js_string option")

datatype monitor_state = Pending | Resolved js_string | Rejected js_string

text \<open>
  The optional \<open>progressCallback\<close> is called inside the handler's \<open>try\<close> block; all the
  handler can see of it is whether the call raises, which is what the function says.
\<close>

type_synonym progress_callback = "(sse_data \<Rightarrow> bool) option"

definition callback_raises :: "progress_callback \<Rightarrow> sse_data \<Rightarrow> bool" where
  "callback_raises cb d = (case cb of None \<Rightarrow> False | Some f \<Rightarrow> f d)"

text \<open>
  \<open>eventSource.onmessage\<close>, run while the promise is pending. Whatever raises inside the
  \<open>try\<close> block (the parse, the callback, \<open>data.status\<close> on \<open>null\<close>) is logged by the
  \<open>catch\<close> block and the promise stays pending.
\<close>

definition onmessage :: "progress_callback \<Rightarrow> sse_data \<Rightarrow> monitor_state" where
  "onmessage cb d =
     (case d of
        Unparseable \<Rightarrow> Pending
      | JsonNull \<Rightarrow> Pending
      | Json st url msg \<Rightarrow>
          if callback_raises cb d then Pending
          else if st = Some (js ''completed'') \<and> truthy url then
            (case url of Some u \<Rightarrow> Resolved u | None \<Rightarrow> Pending)
          else if st = Some (js ''error'') \<or> st = Some (js ''failed'') then
            Rejected (case msg of
                        None \<Rightarrow> js ''Conversion failed''
                      | Some m \<Rightarrow> if m = [] then js ''Conversion failed'' else m)
          else Pending)"

text \<open>A progress callback that raises on whatever it is given.\<close>

definition raising_callback :: progress_callback where
  "raising_callback = Some (\<lambda>d. True)"

text \<open>The two things the event source delivers: a message, or a connection error.\<close>

datatype sse_event = Message sse_data | ConnectionError

definition on_event :: "progress_callback \<Rightarrow> sse_event \<Rightarrow> monitor_state" where
  "on_event cb ev =
     (case ev of
        Message d \<Rightarrow> onmessage cb d
      | ConnectionError \<Rightarrow> Rejected (js ''SSE connection failed''))"

text \<open>
  The promise of \<open>monitorConversionProgress\<close>, for a stream of events stamped with their
  arrival time in milliseconds after the call. The timer set by
  \<open>setTimeout(..., 300000)\<close> rejects at 300000 ms; an event that settles the promise
  closes the source, so later events are not delivered. The result is the time at which
  the promise settles and its outcome.
\<close>

definition sse_timeout_ms :: nat where
  "sse_timeout_ms = 300000"

fun monitorConversionProgress ::
  "progress_callback \<Rightarrow> (nat \<times> sse_event) list \<Rightarrow> nat \<times> monitor_state" where
  "monitorConversionProgress cb [] =
     (sse_timeout_ms, Rejected (js ''Conversion timeout: Process took too long''))"
| "monitorConversionProgress cb ((t, ev) # evs) =
     (if sse_timeout_ms \<le> t then
        (sse_timeout_ms, Rejected (js ''Conversion timeout: Process took too long''))
      else (case on_event cb ev of
              Pending \<Rightarrow> monitorConversionProgress cb evs
            | Resolved u \<Rightarrow> (t, Resolved u)
            | Rejected m \<Rightarrow> (t, Rejected m)))"

text \<open>A message that leaves the promise pending: unparseable, or neither complete nor failed.\<close>

definition skipped :: "progress_callback \<Rightarrow> nat \<times> sse_event \<Rightarrow> bool" where
  "skipped cb tev = (fst tev < sse_timeout_ms \<and> on_event cb (snd tev) = Pending)"

section \<open>The polling monitor: \<open>waitForConversion\<close>\<close>

text \<open>
  One \<open>axios.head(downloadUrl, { timeout: 10000 })\<close>: it raises (network error, timeout,
  a status outside 2xx), or it returns a response with a 2xx status.
\<close>

datatype probe = Threw | Status nat

text \<open>
  The result of the wait: the URL or the error message, the \<open>setTimeout\<close> waits made in
  order, the number of probes issued, and the time elapsed (waits and probes).
\<close>

record poll_result =
  outcome :: "js_string + js_string"
  waits :: "nat list"
  probes :: nat
  elapsed_ms :: nat

text \<open>
  The \<open>for\<close> loop of \<open>waitForConversion\<close>. \<open>head k\<close> is the outcome of the probe of
  attempt \<open>k\<close> and the time it took. A response whose status is not 200 leaves the
  \<open>try\<close> block without raising, so the \<open>catch\<close> block, which holds the wait, is not run.
\<close>

function wait_loop ::
  "(nat \<Rightarrow> probe \<times> nat) \<Rightarrow> js_string \<Rightarrow> nat \<Rightarrow> nat \<Rightarrow> nat list \<Rightarrow> nat \<Rightarrow> poll_result" where
  "wait_loop head downloadUrl maxAttempts attempt ws elapsed =
     (if attempt \<le> maxAttempts then
        (case head attempt of
           (Status code, d) \<Rightarrow>
             if code = 200 then
               \<lparr>outcome = Inr downloadUrl, waits = ws, probes = attempt, elapsed_ms = elapsed + d\<rparr>
             else wait_loop head downloadUrl maxAttempts (attempt + 1) ws (elapsed + d)
         | (Threw, d) \<Rightarrow>
             if attempt < maxAttempts then
               (let waitTime = min 5000 (1000 * attempt)
                in wait_loop head downloadUrl maxAttempts (attempt + 1) (ws @ [waitTime])
                     (elapsed + d + waitTime))
             else wait_loop head downloadUrl maxAttempts (attempt + 1) ws (elapsed + d))
      else \<lparr>outcome = Inl (js ''Conversion timeout: Video took too long to process''),
            waits = ws, probes = maxAttempts, elapsed_ms = elapsed\<rparr>)"
  by pat_completeness auto
termination
  by (relation "measure (\<lambda>(head, downloadUrl, maxAttempts, attempt, ws, elapsed).
        Suc maxAttempts - attempt)") auto

definition waitForConversion ::
  "(nat \<Rightarrow> probe \<times> nat) \<Rightarrow> js_string \<Rightarrow> nat \<Rightarrow> poll_result" where
  "waitForConversion head downloadUrl maxAttempts = wait_loop head downloadUrl maxAttempts 1 [] 0"

text \<open>The progressive schedule of the specification: attempt \<open>j\<close> waits \<open>min(5000, 1000 j)\<close>.\<close>

definition schedule :: "nat \<Rightarrow> nat" where
  "schedule j = min 5000 (1000 * j)"

text \<open>
  Probe behaviours used below: every probe runs into its 10 s timeout; the first probe is
  answered 204 and the second 200, both at once; the probes raise at once until the
  third, which is answered 200.
\<close>

definition head_always_timeout :: "nat \<Rightarrow> probe \<times> nat" where
  "head_always_timeout k = (Threw, 10000)"

definition head_204_then_200 :: "nat \<Rightarrow> probe \<times> nat" where
  "head_204_then_200 k = (if k = 1 then (Status 204, 0) else (Status 200, 0))"

definition head_ready_at_3 :: "nat \<Rightarrow> probe \<times> nat" where
  "head_ready_at_3 k = (if k < 3 then (Threw, 0) else (Status 200, 0))"

section \<open>Properties of the byte sampler\<close>

text \<open>The recursion equations of the polling and the generator iteration are unfolded by hand.\<close>

declare wait_loop.simps [simp del]

declare realistic_loop.simps [simp del]

lemma sample_sq_bound: "(uint (b :: 8 word) - 128) * (uint b - 128) \<le> 16384"
proof -
  have "0 \<le> uint b" by simp
  moreover have "uint b < 256" using uint_bounded [of b] by simp
  ultimately have a: "\<bar>uint b - 128\<bar> \<le> 128" by linarith
  have "(uint b - 128) * (uint b - 128) = \<bar>uint b - 128\<bar> * \<bar>uint b - 128\<bar>" by simp
  also have "\<dots> \<le> 128 * 128" by (rule mult_mono) (use a in auto)
  finally show ?thesis by simp
qed

text \<open>The loop keeps the sum of squares between 0 and \<open>128\<^sup>2\<close> times the sample count.\<close>

lemma sample_loop_inv:
  "0 \<le> tot \<Longrightarrow> tot \<le> 16384 * int count \<Longrightarrow>
   0 \<le> fst (sample_loop buf e j tot count) \<and>
   fst (sample_loop buf e j tot count) \<le> 16384 * int (snd (sample_loop buf e j tot count))"
proof (induction buf e j tot count rule: sample_loop.induct)
  case (1 buf e j tot count)
  show ?case
  proof (cases "j < e")
    case False
    then show ?thesis using "1.prems" by simp
  next
    case True
    show ?thesis
    proof (cases "j + 1 < length buf")
      case False
      with True "1.IH"(2) "1.prems" show ?thesis by simp
    next
      case inb: True
      define s where "s = uint (buf ! j) - 128"
      have "0 \<le> tot + s * s" using "1.prems"(1) by simp
      moreover have "tot + s * s \<le> 16384 * int (count + 1)"
        using "1.prems"(2) sample_sq_bound [of "buf ! j"] by (simp add: s_def)
      ultimately show ?thesis
        using "1.IH"(1) [OF True inb s_def] True inb by (simp add: s_def Let_def)
    qed
  qed
qed

lemma chunk_rms_range:
  "0 \<le> tot \<Longrightarrow> tot \<le> 16384 * int count \<Longrightarrow>
   \<exists>r. chunk_rms tot count = Num r \<and> 0 \<le> r \<and> r \<le> 128"
proof (cases "count > 0")
  case False
  then show ?thesis by (simp add: chunk_rms_def)
next
  case True
  assume a: "0 \<le> tot" "tot \<le> 16384 * int count"
  have "real_of_int tot \<le> 16384 * real count"
    using a(2) by (metis of_int_le_iff of_int_mult of_int_numeral of_int_of_nat_eq)
  then have "real_of_int tot / real count \<le> 16384"
    using True by (simp add: divide_le_eq)
  then have "sqrt (real_of_int tot / real count) \<le> sqrt 16384"
    by (rule real_sqrt_le_mono)
  moreover have "sqrt 16384 = 128"
    by (rule real_sqrt_unique) simp_all
  moreover have "0 \<le> real_of_int tot / real count" using a(1) by simp
  ultimately show ?thesis
    using True by (simp add: chunk_rms_def js_div_count_def js_sqrt_def)
qed

lemma chunk_peak_range: "in_unit_interval (chunk_peak buf cs i)"
proof -
  define e where "e = min (i * cs + cs) (length buf)"
  obtain t c where tc: "sample_loop buf e (i * cs) 0 0 = (t, c)"
    by (cases "sample_loop buf e (i * cs) 0 0")
  have "0 \<le> t \<and> t \<le> 16384 * int c"
    using sample_loop_inv [of 0 0 buf e "i * cs"] tc by simp
  then obtain r where "chunk_rms t c = Num r" "0 \<le> r" "r \<le> 128"
    using chunk_rms_range by blast
  then show ?thesis
    using tc
    by (simp add: chunk_peak_def Let_def e_def js_div_count_def js_min_one_def
        in_unit_interval_def)
qed

lemma length_raw_peaks: "length (raw_peaks buf n) = n"
  by (simp add: raw_peaks_def Let_def)

lemma length_smoothPeaks: "length (smoothPeaks ps) = length ps"
  by (simp add: smoothPeaks_def)

lemma raw_peaks_range: "\<forall>x \<in> set (raw_peaks buf n). in_unit_interval x"
  using chunk_peak_range by (auto simp: raw_peaks_def Let_def)

lemma in_unit_intervalE:
  "in_unit_interval x \<Longrightarrow> \<exists>a. x = Num a \<and> 0 \<le> a \<and> a \<le> 1"
  by (cases x) (simp_all add: in_unit_interval_def)

text \<open>The window loop, started from any sum \<open>t\<close> between 0 and the count \<open>c\<close>.\<close>

lemma window_fold:
  "\<forall>j \<in> set idx. in_unit_interval (ps ! j) \<Longrightarrow> 0 \<le> t \<Longrightarrow> t \<le> real c \<Longrightarrow>
   \<exists>t'. foldl (\<lambda>(tot, count) j. (js_add tot (ps ! j), count + 1)) (Num t, c) idx
          = (Num t', c + length idx) \<and> 0 \<le> t' \<and> t' \<le> real (c + length idx)"
proof (induction idx arbitrary: t c)
  case Nil
  then show ?case by simp
next
  case (Cons j idx)
  from Cons.prems(1) obtain a where a: "ps ! j = Num a" "0 \<le> a" "a \<le> 1"
    using in_unit_intervalE [of "ps ! j"] by auto
  have "0 \<le> t + a" "t + a \<le> real (c + 1)" using Cons.prems a by auto
  with Cons.IH [of "t + a" "c + 1"] Cons.prems(1) show ?case by (simp add: a)
qed

lemma smooth_at_range:
  assumes "\<forall>x \<in> set ps. in_unit_interval x" and "i < length ps"
  shows "in_unit_interval (smooth_at ps i)"
proof -
  obtain lo hi where b: "window_bounds (length ps) i = (lo, hi)"
    by (cases "window_bounds (length ps) i")
  have hi: "hi < length ps" "lo \<le> hi"
    using b assms(2) by (auto simp: window_bounds_def windowSize_def)
  have "\<forall>j \<in> set [lo..<Suc hi]. in_unit_interval (ps ! j)" using hi assms(1) by auto
  from window_fold [OF this, of 0 0] obtain t where
    w: "window_acc ps lo hi = (Num t, Suc hi - lo)" and t: "0 \<le> t" "t \<le> real (Suc hi - lo)"
    unfolding window_acc_def by (auto simp del: upt_Suc)
  have "0 < Suc hi - lo" using hi by simp
  then show ?thesis
    using b w t by (simp add: smooth_at_def js_div_count_def in_unit_interval_def divide_le_eq)
qed

lemma smoothPeaks_range:
  assumes "\<forall>x \<in> set ps. in_unit_interval x"
  shows "\<forall>x \<in> set (smoothPeaks ps). in_unit_interval x"
  using smooth_at_range [OF assms] by (auto simp: smoothPeaks_def)

text \<open>
  Claim C4. For every non-empty byte buffer, \<open>extractRealAmplitudes\<close> (the chunk loop
  followed by \<open>smoothPeaks\<close>) returns exactly \<open>targetPeaks\<close> values, and every value is a
  number between 0 and 1.
\<close>

theorem sampler_length_and_range:
  "audioBuffer \<noteq> [] \<Longrightarrow>
   length (extractRealAmplitudes audioBuffer targetPeaks) = targetPeaks \<and>
   (\<forall>x \<in> set (extractRealAmplitudes audioBuffer targetPeaks).
      \<exists>a. x = Num a \<and> 0 \<le> a \<and> a \<le> 1)"
proof -
  have "\<exists>a. x = Num a \<and> 0 \<le> a \<and> a \<le> 1"
    if "x \<in> set (extractRealAmplitudes audioBuffer targetPeaks)" for x
    using that smoothPeaks_range [OF raw_peaks_range, of audioBuffer targetPeaks]
    by (intro in_unit_intervalE) (simp add: extractRealAmplitudes_def)
  then show ?thesis
    by (simp add: extractRealAmplitudes_def length_smoothPeaks length_raw_peaks)
qed

theorem sampler_length_and_range_witness:
  "[0, 128, 255, 128 :: 8 word] \<noteq> [] \<and>
   length (extractRealAmplitudes [0, 128, 255, 128] 2) = 2 \<and>
   list_all (\<lambda>x. \<exists>a. x = Num a \<and> 0 \<le> a \<and> a \<le> 1) (extractRealAmplitudes [0, 128, 255, 128] 2)"
  using sampler_length_and_range [of "[0, 128, 255, 128]" 2] by (simp add: list_all_iff)

subsection \<open>Buffers shorter than the peak count\<close>

lemma window_fold_zero:
  "\<forall>j \<in> set idx. ps ! j = Num 0 \<Longrightarrow>
   foldl (\<lambda>(tot, count) j. (js_add tot (ps ! j), count + 1)) (Num 0, c) idx
     = (Num 0, c + length idx)"
  by (induction idx arbitrary: c) auto

lemma smooth_at_zero:
  assumes "i < n"
  shows "smooth_at (replicate n (Num 0)) i = Num 0"
proof -
  obtain lo hi where b: "window_bounds n i = (lo, hi)" by (cases "window_bounds n i")
  have hi: "hi < n" "lo \<le> hi" using b assms by (auto simp: window_bounds_def windowSize_def)
  have "\<forall>j \<in> set [lo..<Suc hi]. replicate n (Num 0) ! j = Num 0" using hi by auto
  from window_fold_zero [OF this, of 0]
  have "window_acc (replicate n (Num 0)) lo hi = (Num 0, Suc hi - lo)"
    unfolding window_acc_def by (simp del: upt_Suc)
  moreover have "0 < Suc hi - lo" using hi by simp
  ultimately show ?thesis using b by (simp add: smooth_at_def js_div_count_def)
qed

lemma smoothPeaks_zero: "smoothPeaks (replicate n (Num 0)) = replicate n (Num 0)"
  by (rule nth_equalityI) (simp_all add: smoothPeaks_def smooth_at_zero)

lemma chunk_peak_zero_size: "chunk_peak buf 0 i = Num 0"
  by (simp add: chunk_peak_def chunk_rms_def js_div_count_def js_min_one_def)

lemma raw_peaks_short: "length buf < n \<Longrightarrow> raw_peaks buf n = replicate n (Num 0)"
  by (rule nth_equalityI) (simp_all add: raw_peaks_def chunk_peak_zero_size)

text \<open>The RMS of every chunk of every buffer is a number.\<close>

lemma chunk_rms_is_number:
  "\<exists>r. chunk_rms (fst (sample_loop buf e j 0 0)) (snd (sample_loop buf e j 0 0)) = Num r"
proof -
  obtain t c where tc: "sample_loop buf e j 0 0 = (t, c)"
    by (cases "sample_loop buf e j 0 0")
  have "0 \<le> t \<and> t \<le> 16384 * int c"
    using sample_loop_inv [of 0 0 buf e j] tc by simp
  then obtain r where "chunk_rms t c = Num r"
    using chunk_rms_range by blast
  then show ?thesis using tc by simp
qed

text \<open>
  Claim C10. The division of the RMS is guarded: taken at a count of 0 the quotient
  \<open>sum / count\<close> is not a number, but the RMS of a chunk that contributes no sampled
  byte is 0, and the RMS of every chunk is a number. For every non-empty buffer shorter
  than \<open>targetPeaks\<close> the chunk size is 0 and \<open>extractRealAmplitudes\<close> still returns
  exactly \<open>targetPeaks\<close> values, all equal to 0.
\<close>

theorem short_buffer_all_zero:
  "js_div_count (Num (real_of_int tot)) 0 \<noteq> Num r \<and>
   chunk_rms tot 0 = Num 0 \<and>
   (\<exists>rms. chunk_rms (fst (sample_loop audioBuffer endByte startByte 0 0))
                    (snd (sample_loop audioBuffer endByte startByte 0 0)) = Num rms) \<and>
   (audioBuffer \<noteq> [] \<and> length audioBuffer < targetPeaks \<longrightarrow>
      length audioBuffer div targetPeaks = 0 \<and>
      length (extractRealAmplitudes audioBuffer targetPeaks) = targetPeaks \<and>
      extractRealAmplitudes audioBuffer targetPeaks = replicate targetPeaks (Num 0))"
proof -
  have "js_div_count (Num (real_of_int tot)) 0 \<noteq> Num r"
    by (simp add: js_div_count_def)
  moreover have "chunk_rms tot 0 = Num 0"
    by (simp add: chunk_rms_def)
  moreover note chunk_rms_is_number [of audioBuffer endByte startByte]
  moreover have "length audioBuffer div targetPeaks = 0 \<and>
      length (extractRealAmplitudes audioBuffer targetPeaks) = targetPeaks \<and>
      extractRealAmplitudes audioBuffer targetPeaks = replicate targetPeaks (Num 0)"
    if "length audioBuffer < targetPeaks"
    using that by (simp add: extractRealAmplitudes_def raw_peaks_short smoothPeaks_zero)
  ultimately show ?thesis by blast
qed

theorem short_buffer_all_zero_witness:
  "[1, 2, 3 :: 8 word] \<noteq> [] \<and> length [1, 2, 3 :: 8 word] < 5 \<and>
   extractRealAmplitudes [1, 2, 3] 5 = [Num 0, Num 0, Num 0, Num 0, Num 0]"
proof -
  have r: "replicate 5 (Num 0) = [Num 0, Num 0, Num 0, Num 0, Num 0]"
    by (simp add: numeral_eq_Suc)
  show ?thesis
    using short_buffer_all_zero [of 0 0 "[1, 2, 3]" 0 0 5] by (simp add: r)
qed

text \<open>
  A buffer whose first chunk holds one sampled byte and whose second holds none: the
  second raw peak is the guarded 0, and both smoothed peaks are numbers.
\<close>

lemma sampler_example:
  "raw_peaks [0, 128] 2 = [Num 1, Num 0] \<and>
   extractRealAmplitudes [0, 128] 2 = [Num (1 / 2), Num (1 / 2)]"
proof -
  have raw: "raw_peaks [0, 128] 2 = [Num 1, Num 0]"
    by (simp add: raw_peaks_def chunk_peak_def chunk_rms_def js_div_count_def js_sqrt_def
        js_min_one_def upt_conv_Cons real_sqrt_unique [of 128 16384])
  have sm: "smoothPeaks [Num 1, Num 0] = [Num (1 / 2), Num (1 / 2)]"
    by (simp add: smoothPeaks_def smooth_at_def window_bounds_def windowSize_def
        window_acc_def js_div_count_def upt_conv_Cons)
  show ?thesis by (simp add: extractRealAmplitudes_def raw sm)
qed

section \<open>Properties of the duration estimate\<close>

text \<open>
  Claim C7. For every buffer length \<open>L\<close> the estimated duration is
  \<open>clamp(L / 20000, 30, 600)\<close>, the peak count is \<open>clamp(floor(duration), 100, 200)\<close>, and
  so the peak count lies between 100 and 200.
\<close>

theorem peak_count_clamped:
  "estimatedDuration L = spec_clamp (real L / 20000) 30 600 \<and>
   int (targetPeaks_of L) = spec_clamp \<lfloor>estimatedDuration L\<rfloor> 100 200 \<and>
   100 \<le> targetPeaks_of L \<and> targetPeaks_of L \<le> 200"
proof -
  have a: "max lo (min hi x) = spec_clamp x lo hi" if "lo \<le> hi" for x lo hi :: real
    using that by (simp add: spec_clamp_def max_def min_def)
  have b: "min hi (max lo x) = spec_clamp x lo hi" if "lo \<le> hi" for x lo hi :: int
    using that by (simp add: spec_clamp_def max_def min_def)
  have c: "0 \<le> min 200 (max 100 x)" for x :: int by simp
  have "estimatedDuration L = spec_clamp (real L / 20000) 30 600"
    using a [of 30 600 "real L / 20000"] by (simp add: estimatedDuration_def)
  moreover have "int (targetPeaks_of L) = spec_clamp \<lfloor>estimatedDuration L\<rfloor> 100 200"
    using b [of 100 200 "\<lfloor>estimatedDuration L\<rfloor>"] c [of "\<lfloor>estimatedDuration L\<rfloor>"]
    by (simp add: targetPeaks_of_def)
  moreover have "100 \<le> targetPeaks_of L" "targetPeaks_of L \<le> 200"
    by (simp_all add: targetPeaks_of_def)
  ultimately show ?thesis by blast
qed

lemma peak_count_example: "targetPeaks_of 3000000 = 150 \<and> estimatedDuration 3000000 = 150"
  by (simp add: estimatedDuration_def targetPeaks_of_def)

section \<open>Properties of \<open>resamplePeaks\<close>\<close>

lemma resample_index:
  assumes "i < n"
  shows "0 \<le> \<lfloor>real i * (real m / real n)\<rfloor> \<and> \<lfloor>real i * (real m / real n)\<rfloor> < int m \<or> m = 0"
proof (cases "m = 0")
  case True then show ?thesis by simp
next
  case False
  have n: "0 < real n" using assms by simp
  have "real i * (real m / real n) < real m"
  proof -
    have "real i * real m < real n * real m" using assms False by simp
    then have "real i * real m / real n < real m"
      using n by (simp add: divide_less_eq mult.commute)
    then show ?thesis by simp
  qed
  then have "\<lfloor>real i * (real m / real n)\<rfloor> < int m" by (simp add: floor_less_iff)
  moreover have "0 \<le> \<lfloor>real i * (real m / real n)\<rfloor>" by simp
  ultimately show ?thesis by simp
qed

lemma or_zero_Some: "or_zero (Some x) = x"
  by (simp add: or_zero_def)

text \<open>
  Claim C8. \<open>resamplePeaks\<close> returns the empty sequence on empty input, and for every
  non-empty input and every positive target length it returns a sequence of exactly the
  target length, each element of which is an element of the input.
\<close>

theorem resample_length_and_origin:
  "resamplePeaks [] n = [] \<and>
   (ps \<noteq> [] \<and> 0 < n \<longrightarrow>
      length (resamplePeaks ps n) = n \<and> set (resamplePeaks ps n) \<subseteq> set ps)"
proof -
  have "set (resamplePeaks ps n) \<subseteq> set ps" if ne: "ps \<noteq> []"
  proof (cases "length ps = n")
    case True then show ?thesis using ne by (simp add: resamplePeaks_def)
  next
    case False
    have "or_zero (js_index ps \<lfloor>real i * (real (length ps) / real n)\<rfloor>) \<in> set ps"
      if "i < n" for i
    proof -
      from resample_index [OF that, of "length ps"] ne
      have r: "0 \<le> \<lfloor>real i * (real (length ps) / real n)\<rfloor>"
              "\<lfloor>real i * (real (length ps) / real n)\<rfloor> < int (length ps)" by auto
      then have "nat \<lfloor>real i * (real (length ps) / real n)\<rfloor> < length ps" by linarith
      then show ?thesis using r by (simp add: js_index_def or_zero_Some)
    qed
    then show ?thesis using ne False by (auto simp: resamplePeaks_def Let_def)
  qed
  then show ?thesis by (auto simp: resamplePeaks_def Let_def)
qed

theorem resample_length_and_origin_witness:
  "[0.5, -0.25, 1 :: real] \<noteq> [] \<and> (0::nat) < 2 \<and>
   length (resamplePeaks [0.5, -0.25, 1] 2) = 2 \<and>
   set (resamplePeaks [0.5, -0.25, 1] 2) \<subseteq> set [0.5, -0.25, 1 :: real]"
  using resample_length_and_origin [of 2 "[0.5, -0.25, 1]"] by simp

lemma resample_example: "resamplePeaks [0.5, -0.25, 1] 2 = [0.5, -0.25]"
  by (simp add: resamplePeaks_def js_index_def or_zero_def upt_conv_Cons)

section \<open>Properties of \<open>extractVideoId\<close>\<close>

text \<open>Every capture that the final group \<open>([^"&?\/\s]{11})\<close> sets has 11 code units.\<close>

lemma grp_rep_capture:
  "(r, c) \<in> set (rx_match (Grp (RepC n p)) st) \<Longrightarrow> \<exists>v. c = Some v \<and> length v = n"
  by (cases st) (auto split: if_splits)

lemma seq_results:
  "x \<in> set (rx_match (Seq a b) st) \<Longrightarrow> \<exists>st'. x \<in> set (rx_match b st')"
  by auto

lemma rx_exec_result:
  "rx_exec r s = Some cap \<Longrightarrow> \<exists>st rest. (rest, cap) \<in> set (rx_match r st)"
proof (induction s)
  case Nil
  show ?case
  proof (cases "rx_match r ([], None)")
    case Nil
    with Nil.prems show ?thesis by simp
  next
    case (Cons x xs)
    with Nil.prems have "(fst x, cap) \<in> set (rx_match r ([], None))"
      by (cases x) auto
    then show ?thesis by blast
  qed
next
  case (Cons c s)
  show ?case
  proof (cases "rx_match r (c # s, None)")
    case Nil
    with Cons show ?thesis by simp
  next
    case (Cons x xs)
    with Cons.prems have "(fst x, cap) \<in> set (rx_match r (c # s, None))"
      by (cases x) auto
    then show ?thesis by blast
  qed
qed

text \<open>
  Claim C9. For every input string, \<open>extractVideoId\<close> returns either \<open>null\<close> or a
  string of exactly 11 characters, the captured group of the URL pattern; it never
  returns anything else.
\<close>

theorem extractVideoId_length:
  "extractVideoId url = Null \<or> (\<exists>v. extractVideoId url = Str v \<and> length v = 11)"
proof (cases "rx_exec videoId_regex url")
  case None
  then show ?thesis by (simp add: extractVideoId_def)
next
  case (Some cap)
  from rx_exec_result [OF Some] obtain st rest where
    "(rest, cap) \<in> set (rx_match videoId_regex st)" by blast
  then obtain st' where "(rest, cap) \<in> set (rx_match (Grp (RepC 11 cls_id)) st')"
    unfolding videoId_regex_def using seq_results by blast
  then obtain v where "cap = Some v" "length v = 11" using grp_rep_capture by blast
  with Some show ?thesis by (simp add: extractVideoId_def)
qed

lemmas rx_eval = extractVideoId_def videoId_regex_def js_def cls_id_def cls_space_def
  cls_dot_def cls_not_slash_def cls_query_amp_def

lemma extractVideoId_watch:
  "extractVideoId (js ''https://www.youtube.com/watch?v=dQw4w9WgXcQ&t=1'') = Str (js ''dQw4w9WgXcQ'')"
  by (simp add: rx_eval)

lemma extractVideoId_embed:
  "extractVideoId (js ''youtube.com/embed/dQw4w9WgXcQ'') = Str (js ''dQw4w9WgXcQ'')"
  by (simp add: rx_eval)

lemma extractVideoId_other_host:
  "extractVideoId (js ''https://example.com/watch?v=dQw4w9WgXcQ'') = Null"
  by (simp add: rx_eval)

lemma extractVideoId_short_id: "extractVideoId (js ''youtu.be/short'') = Null"
  by (simp add: rx_eval)

section \<open>Properties of the event-stream monitor\<close>

text \<open>Messages that leave the promise pending do not change the outcome.\<close>

lemma monitor_skip_prefix:
  "list_all (skipped cb) pre \<Longrightarrow>
   monitorConversionProgress cb (pre @ evs) = monitorConversionProgress cb evs"
proof (induction pre)
  case Nil
  then show ?case by simp
next
  case (Cons x pre)
  obtain t ev where x: "x = (t, ev)" by (cases x)
  from Cons.prems have sk: "skipped cb (t, ev)" and rest: "list_all (skipped cb) pre"
    by (simp_all add: x)
  from sk have "t < sse_timeout_ms" "on_event cb ev = Pending"
    by (simp_all add: skipped_def)
  with Cons.IH [OF rest] show ?case by (simp add: x)
qed

lemma onmessage_completed:
  "\<not> callback_raises cb (Json (Some (js ''completed'')) (Some u) msg) \<Longrightarrow> u \<noteq> [] \<Longrightarrow>
   onmessage cb (Json (Some (js ''completed'')) (Some u) msg) = Resolved u"
  by (simp add: onmessage_def truthy_def)

lemma onmessage_failed:
  "\<not> callback_raises cb (Json st url msg) \<Longrightarrow>
   st = Some (js ''error'') \<or> st = Some (js ''failed'') \<Longrightarrow>
   onmessage cb (Json st url msg) =
     Rejected (if truthy msg then the msg else js ''Conversion failed'')"
  by (auto simp: onmessage_def truthy_def js_def split: option.splits)

lemma onmessage_malformed: "onmessage cb Unparseable = Pending \<and> onmessage cb JsonNull = Pending"
  by (simp add: onmessage_def)

text \<open>
  In a stream whose earlier messages left the promise pending, and with a progress
  callback that does not raise on the message: a message with status \<open>completed\<close> and
  a present asset URL resolves with exactly that URL; a message with status \<open>error\<close> or
  \<open>failed\<close> rejects with the message's \<open>message\<close> (with the text \<open>Conversion failed\<close>
  when it has none); an unparseable message is skipped, the stream going on as if it had
  not been sent.
\<close>

lemma sse_event_outcomes:
  assumes "list_all (skipped cb) pre" and "t < sse_timeout_ms"
    and "\<not> callback_raises cb (Json st url msg)"
  shows
    "(st = Some (js ''completed'') \<and> url = Some u \<and> u \<noteq> [] \<longrightarrow>
        monitorConversionProgress cb (pre @ (t, Message (Json st url msg)) # post) = (t, Resolved u)) \<and>
     ((st = Some (js ''error'') \<or> st = Some (js ''failed'')) \<and> msg = Some m \<and> m \<noteq> [] \<longrightarrow>
        monitorConversionProgress cb (pre @ (t, Message (Json st url msg)) # post) = (t, Rejected m)) \<and>
     ((st = Some (js ''error'') \<or> st = Some (js ''failed'')) \<and> \<not> truthy msg \<longrightarrow>
        monitorConversionProgress cb (pre @ (t, Message (Json st url msg)) # post)
          = (t, Rejected (js ''Conversion failed''))) \<and>
     onmessage cb Unparseable = Pending \<and>
     monitorConversionProgress cb (pre @ (t, Message Unparseable) # post)
       = monitorConversionProgress cb (pre @ post)"
proof -
  have skip: "monitorConversionProgress cb (pre @ evs) = monitorConversionProgress cb evs" for evs
    using assms(1) by (rule monitor_skip_prefix)
  have a: "monitorConversionProgress cb ((t, Message (Json st url msg)) # post) = (t, Resolved u)"
    if "st = Some (js ''completed'')" "url = Some u" "u \<noteq> []"
    using that assms(2,3) onmessage_completed [of cb u msg] by (simp add: on_event_def)
  have b: "monitorConversionProgress cb ((t, Message (Json st url msg)) # post)
             = (t, Rejected (if truthy msg then the msg else js ''Conversion failed''))"
    if "st = Some (js ''error'') \<or> st = Some (js ''failed'')"
    using that assms(2,3) onmessage_failed [of cb st url msg] by (simp add: on_event_def)
  have c: "monitorConversionProgress cb ((t, Message Unparseable) # post)
             = monitorConversionProgress cb post"
    using assms(2) by (simp add: on_event_def onmessage_def)
  show ?thesis
    using a b c by (auto simp: skip truthy_def onmessage_def)
qed

lemma sse_event_outcomes_example:
  "list_all (skipped None)
     [(100, Message Unparseable), (200, Message (Json (Some (js ''processing'')) None None))] \<and>
   (300::nat) < sse_timeout_ms \<and>
   \<not> callback_raises None (Json (Some (js ''completed'')) (Some (js ''https://cdn/a.mp3'')) None) \<and>
   monitorConversionProgress None
     ([(100, Message Unparseable), (200, Message (Json (Some (js ''processing'')) None None))]
      @ (300, Message (Json (Some (js ''completed'')) (Some (js ''https://cdn/a.mp3'')) None))
      # [(400, ConnectionError)])
     = (300, Resolved (js ''https://cdn/a.mp3'')) \<and>
   \<not> callback_raises None (Json (Some (js ''failed'')) None (Some (js ''quota exceeded''))) \<and>
   monitorConversionProgress None
     ([(100, Message Unparseable), (200, Message (Json (Some (js ''processing'')) None None))]
      @ (300, Message (Json (Some (js ''failed'')) None (Some (js ''quota exceeded''))))
      # [(400, ConnectionError)])
     = (300, Rejected (js ''quota exceeded''))"
proof -
  have s: "list_all (skipped None)
     [(100, Message Unparseable), (200, Message (Json (Some (js ''processing'')) None None))]"
    by (simp add: skipped_def sse_timeout_ms_def on_event_def onmessage_def
        callback_raises_def js_def)
  have t: "(300::nat) < sse_timeout_ms" by (simp add: sse_timeout_ms_def)
  have c: "\<not> callback_raises None (Json (Some (js ''completed'')) (Some (js ''https://cdn/a.mp3'')) None)"
    by (simp add: callback_raises_def)
  have c': "\<not> callback_raises None (Json (Some (js ''failed'')) None (Some (js ''quota exceeded'')))"
    by (simp add: callback_raises_def)
  have n: "js ''https://cdn/a.mp3'' \<noteq> []" "js ''quota exceeded'' \<noteq> []" by (simp_all add: js_def)
  from sse_event_outcomes [OF s t c, of "js ''https://cdn/a.mp3''" "[(400, ConnectionError)]"] n
  have 1: "monitorConversionProgress None
     ([(100, Message Unparseable), (200, Message (Json (Some (js ''processing'')) None None))]
      @ (300, Message (Json (Some (js ''completed'')) (Some (js ''https://cdn/a.mp3'')) None))
      # [(400, ConnectionError)])
     = (300, Resolved (js ''https://cdn/a.mp3''))" by simp
  from sse_event_outcomes [OF s t c', of _ "[(400, ConnectionError)]" "js ''quota exceeded''"] n
  have 2: "monitorConversionProgress None
     ([(100, Message Unparseable), (200, Message (Json (Some (js ''processing'')) None None))]
      @ (300, Message (Json (Some (js ''failed'')) None (Some (js ''quota exceeded''))))
      # [(400, ConnectionError)])
     = (300, Rejected (js ''quota exceeded''))" by simp
  show ?thesis using s t c c' 1 2 by blast
qed

text \<open>
  Claim C6. The claim says that, in every stream, a message with status \<open>completed\<close>
  and a present asset URL resolves the promise with that URL, a message with status
  \<open>error\<close> or \<open>failed\<close> rejects it with the message's text, and an unparseable message
  is skipped. The handler does so as long as the progress callback does not raise
  (\<open>sse_event_outcomes\<close>). But the callback is called inside the \<open>try\<close> block that
  surrounds the parse, before the status is tested: when it raises, the \<open>catch\<close> block
  logs the error as a parse error and the message is dropped. The same \<open>completed\<close>
  message resolves the promise when there is no callback and leaves it pending, until
  the timer rejects it, when the callback raises; the same \<open>failed\<close> message rejects
  with its text in the one case and is lost in the other.
\<close>

theorem sse_raising_callback_drops_terminal_message:
  "monitorConversionProgress None
     [(300, Message (Json (Some (js ''completed'')) (Some (js ''https://cdn/a.mp3'')) None))]
     = (300, Resolved (js ''https://cdn/a.mp3'')) \<and>
   monitorConversionProgress raising_callback
     [(300, Message (Json (Some (js ''completed'')) (Some (js ''https://cdn/a.mp3'')) None))]
     = (sse_timeout_ms, Rejected (js ''Conversion timeout: Process took too long'')) \<and>
   monitorConversionProgress None
     [(300, Message (Json (Some (js ''failed'')) None (Some (js ''quota exceeded''))))]
     = (300, Rejected (js ''quota exceeded'')) \<and>
   monitorConversionProgress raising_callback
     [(300, Message (Json (Some (js ''failed'')) None (Some (js ''quota exceeded''))))]
     = (sse_timeout_ms, Rejected (js ''Conversion timeout: Process took too long''))"
  by (simp add: on_event_def onmessage_def callback_raises_def raising_callback_def
      truthy_def sse_timeout_ms_def js_def)

section \<open>Properties of the polling monitor\<close>

lemma sum_schedule_from:
  "a < n \<Longrightarrow> sum_list (map schedule [a..<n]) = schedule a + sum_list (map schedule [Suc a..<n])"
  by (simp add: upt_conv_Cons)

lemma wait_loop_elapsed:
  "(\<forall>k. snd (head k) \<le> D) \<Longrightarrow>
   elapsed_ms (wait_loop head url n a ws e)
     \<le> e + (Suc n - a) * D + sum_list (map schedule [a..<n])"
proof (induction head url n a ws e rule: wait_loop.induct)
  case (1 head url n a ws e)
  obtain p d where hd: "head a = (p, d)" by (cases "head a")
  have sa: "min 5000 (1000 * a) = schedule a" by (simp add: schedule_def)
  have d: "d \<le> D" using "1.prems" hd by (metis snd_conv)
  show ?case
  proof (cases "a \<le> n")
    case False
    then show ?thesis by (subst wait_loop.simps) simp
  next
    case le: True
    then have split: "(Suc n - a) * D = D + (Suc n - Suc a) * D"
      by (simp add: Suc_diff_le)
    show ?thesis
    proof (cases p)
      case (Status code)
      show ?thesis
      proof (cases "code = 200")
        case True
        then show ?thesis using le hd Status d split by (subst wait_loop.simps) simp
      next
        case False
        have "sum_list (map schedule [Suc a..<n]) \<le> sum_list (map schedule [a..<n])"
          by (cases "a < n") (simp_all add: sum_schedule_from)
        with "1.IH"(3) [OF le hd [symmetric] Status False "1.prems"] d split
        show ?thesis using le hd Status False by (subst wait_loop.simps) simp
      qed
    next
      case Threw
      show ?thesis
      proof (cases "a < n")
        case True
        from "1.IH"(1) [OF le hd [symmetric] Threw True refl "1.prems"] d split
        show ?thesis using le hd Threw True
          by (subst wait_loop.simps) (simp add: sum_schedule_from Let_def sa)
      next
        case False
        from "1.IH"(2) [OF le hd [symmetric] Threw False "1.prems"] d split
        show ?thesis using le hd Threw False by (subst wait_loop.simps) simp
      qed
    qed
  qed
qed

lemma wait_loop_ready:
  "(\<forall>j. a \<le> j \<and> j < k \<longrightarrow> fst (head j) = Threw) \<Longrightarrow> fst (head k) = Status 200 \<Longrightarrow>
   a \<le> k \<Longrightarrow> k \<le> n \<Longrightarrow>
   outcome (wait_loop head url n a ws e) = Inr url \<and>
   probes (wait_loop head url n a ws e) = k \<and>
   waits (wait_loop head url n a ws e) = ws @ map schedule [a..<k]"
proof (induction head url n a ws e rule: wait_loop.induct)
  case (1 head url n a ws e)
  obtain p d where hd: "head a = (p, d)" by (cases "head a")
  have sa: "min 5000 (1000 * a) = schedule a" by (simp add: schedule_def)
  have le: "a \<le> n" using "1.prems" by simp
  show ?case
  proof (cases "a = k")
    case True
    then have "p = Status 200" using "1.prems"(2) hd by simp
    then show ?thesis using hd le True by (subst (1 2 3) wait_loop.simps) simp
  next
    case False
    then have lt: "a < k" "a < n" using "1.prems" by simp_all
    then have p: "p = Threw" using "1.prems"(1) hd by (metis fst_conv le_refl)
    have rec: "\<forall>j. a + 1 \<le> j \<and> j < k \<longrightarrow> fst (head j) = Threw" using "1.prems"(1) by simp
    from "1.IH"(1) [OF le hd [symmetric] p lt(2) refl rec "1.prems"(2)] lt "1.prems"(4)
    show ?thesis using hd le p lt
      by (subst (1 2 3) wait_loop.simps) (simp add: upt_conv_Cons Let_def sa)
  qed
qed

lemma wait_loop_exhausted:
  "(\<forall>j. a \<le> j \<and> j \<le> n \<longrightarrow> fst (head j) \<noteq> Status 200) \<Longrightarrow>
   outcome (wait_loop head url n a ws e)
     = Inl (js ''Conversion timeout: Video took too long to process'')"
proof (induction head url n a ws e rule: wait_loop.induct)
  case (1 head url n a ws e)
  obtain p d where hd: "head a = (p, d)" by (cases "head a")
  have sa: "min 5000 (1000 * a) = schedule a" by (simp add: schedule_def)
  show ?case
  proof (cases "a \<le> n")
    case False
    then show ?thesis by (subst wait_loop.simps) simp
  next
    case le: True
    have rec: "\<forall>j. a + 1 \<le> j \<and> j \<le> n \<longrightarrow> fst (head j) \<noteq> Status 200"
      using "1.prems" by simp
    show ?thesis
    proof (cases p)
      case (Status code)
      then have ne: "code \<noteq> 200" using "1.prems" hd le by (metis fst_conv le_refl)
      from "1.IH"(3) [OF le hd [symmetric] Status ne rec]
      show ?thesis using le hd Status ne by (subst wait_loop.simps) simp
    next
      case Threw
      show ?thesis
      proof (cases "a < n")
        case True
        from "1.IH"(1) [OF le hd [symmetric] Threw True refl rec]
        show ?thesis using le hd Threw True by (subst wait_loop.simps) (simp add: Let_def)
      next
        case False
        from "1.IH"(2) [OF le hd [symmetric] Threw False rec]
        show ?thesis using le hd Threw False by (subst wait_loop.simps) simp
      qed
    qed
  qed
qed

text \<open>The same for \<open>waitForConversion\<close>, which starts the iteration at attempt 1.\<close>

lemma polling_follows_schedule:
  assumes "\<forall>j. 1 \<le> j \<and> j < k \<longrightarrow> fst (head j) = Threw" and "fst (head k) = Status 200"
    and "1 \<le> k" and "k \<le> maxAttempts"
  shows "outcome (waitForConversion head url maxAttempts) = Inr url \<and>
         probes (waitForConversion head url maxAttempts) = k \<and>
         waits (waitForConversion head url maxAttempts) = map schedule [1..<k] \<and>
         sum_list (waits (waitForConversion head url maxAttempts)) = (\<Sum>j = 1..<k. schedule j)"
proof -
  from wait_loop_ready [OF assms, of url "[]" 0]
  have r: "outcome (waitForConversion head url maxAttempts) = Inr url"
    "probes (waitForConversion head url maxAttempts) = k"
    "waits (waitForConversion head url maxAttempts) = map schedule [1..<k]"
    by (simp_all add: waitForConversion_def)
  have "sum_list (map schedule [1..<k]) = (\<Sum>j = 1..<k. schedule j)"
    by (simp add: interv_sum_list_conv_sum_set_nat)
  with r show ?thesis by simp
qed

text \<open>
  The example of the specification: the probe answers 200 from the third attempt on;
  the waits made are 1000 ms and 2000 ms.
\<close>

lemma polling_example_third_probe:
  "waits (waitForConversion head_ready_at_3 url 30) = [1000, 2000] \<and>
   outcome (waitForConversion head_ready_at_3 url 30) = Inr url"
  by (simp add: waitForConversion_def head_ready_at_3_def wait_loop.simps)

text \<open>
  Claim C5. The claim says that the wait before each retry is \<open>min(5000, 1000 * attempt)\<close>
  and that, when the probe first succeeds on attempt \<open>k\<close>, the waits add up to the sum of
  the schedule over \<open>1 .. k - 1\<close>. That holds when every earlier probe raised
  (\<open>polling_follows_schedule\<close>), and exhausting the attempts fails
  (\<open>wait_loop_exhausted\<close>). It does not hold when a probe is answered with a 2xx
  status other than 200: the retry follows at once. Here the first probe is answered
  204 and the second 200: the URL is returned after two probes and no wait at all,
  where the schedule has 1000 ms.
\<close>

theorem polling_retries_non200_at_once:
  "outcome (waitForConversion head_204_then_200 url 30) = Inr url \<and>
   probes (waitForConversion head_204_then_200 url 30) = 2 \<and>
   waits (waitForConversion head_204_then_200 url 30) = [] \<and>
   sum_list (waits (waitForConversion head_204_then_200 url 30)) \<noteq> schedule 1"
  by (simp add: waitForConversion_def head_204_then_200_def schedule_def wait_loop.simps)

section \<open>The wall-clock bound of the two monitors\<close>

lemma monitor_within_timer: "fst (monitorConversionProgress cb evs) \<le> sse_timeout_ms"
  by (induction evs) (auto split: monitor_state.splits)

text \<open>
  Claim C3, as stated, fails: the polling loop has no timer. With every probe running
  into its 10 s timeout, the default 30 attempts take 435 s, well past the 300 s of the
  event-stream monitor's timer.
\<close>

theorem polling_exceeds_timer:
  "elapsed_ms (waitForConversion head_always_timeout (js ''u'') 30) = 435000 \<and>
   \<not> elapsed_ms (waitForConversion head_always_timeout (js ''u'') 30) \<le> sse_timeout_ms"
  by (simp add: waitForConversion_def head_always_timeout_def sse_timeout_ms_def wait_loop.simps)

text \<open>
  Claim C3, amended. The event-stream monitor settles no later than its own timer of
  300000 ms. The polling monitor is bounded by its attempt budget only: when no probe
  takes longer than its 10 s timeout, it ends within \<open>maxAttempts\<close> times 10 s plus the
  scheduled waits after attempts \<open>1 .. maxAttempts - 1\<close>.
\<close>

theorem monitor_time_bounds:
  "fst (monitorConversionProgress cb evs) \<le> sse_timeout_ms \<and>
   ((\<forall>k. snd (head k) \<le> 10000) \<longrightarrow>
      elapsed_ms (waitForConversion head url maxAttempts)
        \<le> maxAttempts * 10000 + sum_list (map schedule [1..<maxAttempts]))"
  using monitor_within_timer [of cb evs] wait_loop_elapsed [of head 10000 url maxAttempts 1 "[]" 0]
  by (simp add: waitForConversion_def)

theorem monitor_time_bounds_witness:
  "snd (head_always_timeout 7) \<le> 10000 \<and>
   fst (monitorConversionProgress None []) \<le> sse_timeout_ms \<and>
   elapsed_ms (waitForConversion head_always_timeout (js ''u'') 3)
     \<le> 3 * 10000 + sum_list (map schedule [1..<3]) \<and>
   elapsed_ms (waitForConversion head_always_timeout (js ''u'') 3) = 33000"
proof -
  have h: "\<forall>k. snd (head_always_timeout k) \<le> 10000" by (simp add: head_always_timeout_def)
  have e: "elapsed_ms (waitForConversion head_always_timeout (js ''u'') 3) = 33000"
    by (simp add: waitForConversion_def head_always_timeout_def wait_loop.simps)
  from monitor_time_bounds [of None "[]" head_always_timeout "js ''u''" 3] h e
  show ?thesis by (simp add: head_always_timeout_def)
qed

section \<open>Properties of the procedural generator\<close>

text \<open>The processor that holds video id \<open>a\<close> and audio size 5 has seed 102, pattern 2.\<close>

lemma seed_a5: "seed_of processor_a5 = 102"
  by (simp add: seed_of_def processor_a5_def videoId_of_def audioSize_of_def videoIdHash_def
      hash_step_def js_def)

lemma loop_two:
  "fst (realistic_loop seed 2 rnd 0 0 []) =
     [fst (realistic_peak seed 2 rnd 0 0),
      fst (realistic_peak seed 2 rnd (Suc 0) (snd (realistic_peak seed 2 rnd 0 0)))]"
  by (simp add: realistic_loop.simps [of _ _ _ 0] realistic_loop.simps [of _ _ _ "Suc 0"]
      realistic_loop.simps [of _ _ _ "Suc (Suc 0)"] case_prod_beta)

lemma peak_zero_rnd:
  "fst (realistic_peak 102 2 rnd_zero (Suc 0) k) = 7 * sin (4 * pi + 51 / 500) / 20 - 191 / 10000"
proof -
  have b: "- 1 \<le> sin (4 * pi + 51 / 500 :: real)" "sin (4 * pi + 51 / 500 :: real) \<le> 1"
    by (rule sin_ge_minus_one, rule sin_le_one)
  have "fst (realistic_peak 102 2 rnd_zero (Suc 0) k)
          = max (- 1) (min 1 (7 * sin (4 * pi + 51 / 500) / 20 - 191 / 10000))"
    unfolding realistic_peak_def pattern_amplitude_def rnd_zero_def
    by (simp add: Let_def)
  also have "\<dots> = 7 * sin (4 * pi + 51 / 500) / 20 - 191 / 10000"
    using b by linarith
  finally show ?thesis .
qed

lemma peak_half_rnd:
  "fst (realistic_peak 102 2 rnd_half (Suc 0) k) = 7 * sin (4 * pi + 51 / 500) / 20 - 161 / 10000"
proof -
  have b: "- 1 \<le> sin (4 * pi + 51 / 500 :: real)" "sin (4 * pi + 51 / 500 :: real) \<le> 1"
    by (rule sin_ge_minus_one, rule sin_le_one)
  have "fst (realistic_peak 102 2 rnd_half (Suc 0) k)
          = max (- 1) (min 1 (7 * sin (4 * pi + 51 / 500) / 20 - 161 / 10000))"
    unfolding realistic_peak_def pattern_amplitude_def rnd_half_def
    by (simp add: Let_def)
  also have "\<dots> = 7 * sin (4 * pi + 51 / 500) / 20 - 161 / 10000"
    using b by linarith
  finally show ?thesis .
qed

text \<open>
  Claim C2. The claim says that two runs of \<open>generateRealisticPeaks\<close> on the same video
  id, buffer length and peak count give the same peaks. The generator calls
  \<open>Math.random()\<close>; with the same processor state and peak count, the run in which it
  returns 0 and the run in which it returns 0.5 give different peaks.
\<close>

theorem generator_depends_on_random:
  "fst (generateRealisticPeaks processor_a5 rnd_zero 2 dur)
     \<noteq> fst (generateRealisticPeaks processor_a5 rnd_half 2 dur)"
  by (simp add: generateRealisticPeaks_def seed_a5 loop_two peak_zero_rnd peak_half_rnd)

section \<open>Properties of \<open>generatePeaks\<close>\<close>

text \<open>
  Claim C1, as stated, fails: for a location that cannot be fetched, \<open>generatePeaks\<close>
  rethrows the error of the HTTP request.
\<close>

theorem generatePeaks_unreachable_raises:
  "fst (generatePeaks unreachable_env fresh_processor (js ''https://bad.invalid/missing.mp3'')
         (Some (js ''dQw4w9WgXcQ''))) = Inl AxiosError"
  by (simp add: generatePeaks_def unreachable_env_def)

text \<open>
  Claim C1, amended. \<open>generatePeaks\<close> rethrows a failure of the fetch to its caller;
  when the fetch returns data and the temporary file is written and read back, it
  returns a result whose peaks are the sampler's, of the computed count, with the
  estimated duration.
\<close>

theorem generatePeaks_outcome:
  "(fetch env audioUrl = Inl e \<longrightarrow> fst (generatePeaks env this audioUrl videoId) = Inl e) \<and>
   (fetch env audioUrl = Inr (Some buf) \<and> \<not> writeFile_fails env \<and> \<not> readFile_fails env \<longrightarrow>
      (\<exists>r. fst (generatePeaks env this audioUrl videoId) = Inr r \<and>
           peaks r = extractRealAmplitudes buf (targetPeaks_of (length buf)) \<and>
           length (peaks r) = targetPeaks_of (length buf) \<and>
           duration r = estimatedDuration (length buf)))"
  by (simp add: generatePeaks_def extractPeaksFromFile_def simulatePeaksExtraction_def Let_def
      extractRealAmplitudes_def length_smoothPeaks length_raw_peaks)

theorem generatePeaks_outcome_witness:
  "fetch unreachable_env (js ''u'') = Inl AxiosError \<and>
   fst (generatePeaks unreachable_env fresh_processor (js ''u'') None) = Inl AxiosError \<and>
   fetch (serving_env [0, 128, 255, 128]) (js ''u'') = Inr (Some [0, 128, 255, 128]) \<and>
   \<not> writeFile_fails (serving_env [0, 128, 255, 128]) \<and>
   \<not> readFile_fails (serving_env [0, 128, 255, 128]) \<and>
   (\<exists>r. fst (generatePeaks (serving_env [0, 128, 255, 128]) fresh_processor (js ''u'') None) = Inr r \<and>
        length (peaks r) = 100)"
proof -
  have a: "fetch unreachable_env (js ''u'') = Inl AxiosError"
    by (simp add: unreachable_env_def)
  have b: "fetch (serving_env [0, 128, 255, 128]) (js ''u'') = Inr (Some [0, 128, 255, 128])"
    "\<not> writeFile_fails (serving_env [0, 128, 255, 128])"
    "\<not> readFile_fails (serving_env [0, 128, 255, 128])"
    by (simp_all add: serving_env_def)
  have n: "targetPeaks_of (length [0, 128, 255, 128 :: 8 word]) = 100"
    by (simp add: targetPeaks_of_def estimatedDuration_def)
  from generatePeaks_outcome [of unreachable_env "js ''u''" AxiosError fresh_processor None] a
  have 1: "fst (generatePeaks unreachable_env fresh_processor (js ''u'') None) = Inl AxiosError"
    by blast
  from generatePeaks_outcome [of "serving_env [0, 128, 255, 128]" "js ''u''" _ fresh_processor None
      "[0, 128, 255, 128]"] b n
  have 2: "\<exists>r. fst (generatePeaks (serving_env [0, 128, 255, 128]) fresh_processor (js ''u'') None) = Inr r \<and>
        length (peaks r) = 100"
    by auto
  show ?thesis using a b 1 2 by blast
qed

text \<open>
  The \<open>catch\<close> block of \<open>simulatePeaksExtraction\<close> cannot produce the fallback: reached,
  it raises.
\<close>

lemma simulate_no_fallback:
  "fst (simulatePeaksExtraction this None) = Inl ReferenceError"
  by (simp add: simulatePeaksExtraction_def)

end
